theory Spec2Isabelle
  imports
    Complex_Main
    "HOL-Library.Multiset"
    "HOL-Library.Stream"
    "HOL-Library.Char_ord"
    "HOL-Library.List_Lexorder"
begin

section \<open>Speech emotion recognition pipeline: data model\<close>

text \<open>
  The notebooks are Python over NumPy, librosa and scikit-learn.  Samples and
  coefficients are floating-point numbers in the source; they are modelled as
  \<^typ>\<open>real\<close>, so rounding is abstracted away.  Every exception the source can raise
  is a value: a function that can raise returns \<open>exn + 'a\<close>, with \<open>Inl\<close> the exception.
\<close>

datatype exn_class = IndexError | KeyError | ValueError | AudioError

datatype exn = Exn exn_class string

fun exn_str :: "exn \<Rightarrow> string" where
  "exn_str (Exn c msg) = msg"

type_synonym waveform = "real list"

text \<open>A decoded clip: the mono waveform and its sample rate, as \<open>librosa.load\<close> returns them.\<close>

type_synonym audio = "waveform \<times> nat"

subsection \<open>The global random generator of NumPy\<close>

text \<open>
  \<open>np.random\<close> is global mutable state.  It is modelled as the two streams of values it
  is still going to deliver: raw integer draws and standard normal draws.  A bounded
  integer draw reduces the next raw draw into the requested half-open range, so every
  generator state yields a value in range and every value in range is yielded by some
  state.
\<close>

record rng =
  ints :: "nat stream"
  normals :: "real stream"

definition randint :: "int \<Rightarrow> int \<Rightarrow> rng \<Rightarrow> exn + (int \<times> rng)" where
  \<comment> \<open>\<open>np.random.randint(low, high)\<close>; \<open>np.random.randint(high)\<close> is \<open>randint 0 high\<close>.\<close>
  "randint low high g =
     (if high \<le> low then Inl (Exn ValueError (if low = 0 then ''high <= 0'' else ''low >= high''))
      else Inr (low + int (shd (ints g) mod nat (high - low)), g\<lparr>ints := stl (ints g)\<rparr>))"

definition randn :: "nat \<Rightarrow> rng \<Rightarrow> real list \<times> rng" where
  \<comment> \<open>\<open>np.random.randn(n)\<close>\<close>
  "randn n g = (stake n (normals g), g\<lparr>normals := sdrop n (normals g)\<rparr>)"

section \<open>Augmentor\<close>

definition py_int :: "real \<Rightarrow> int" where
  \<comment> \<open>Python's \<open>int(x)\<close> on a float: truncation towards zero.\<close>
  "py_int x = (if 0 \<le> x then \<lfloor>x\<rfloor> else \<lceil>x\<rceil>)"

definition np_roll :: "'a list \<Rightarrow> int \<Rightarrow> 'a list" where
  \<comment> \<open>\<open>np.roll(a, k)\<close> on a one-dimensional array: element \<open>i\<close> moves to \<open>(i + k) mod n\<close>.\<close>
  "np_roll xs k =
     (let n = length xs in
      if n = 0 then xs
      else let off = nat (k mod int n) in drop (n - off) xs @ take (n - off) xs)"

definition add_noise :: "waveform \<Rightarrow> real \<Rightarrow> rng \<Rightarrow> waveform \<times> rng" where
  "add_noise data noise_factor g =
     (let (noise, g') = randn (length data) g
      in (map2 (\<lambda>d z. d + noise_factor * z) data noise, g'))"

definition shift_wav :: "waveform \<Rightarrow> real \<Rightarrow> string \<Rightarrow> rng \<Rightarrow> exn + (waveform \<times> rng)" where
  \<comment> \<open>\<open>shift\<close> in the notebooks; the library of streams already has a constant of that name.\<close>
  "shift_wav data shift_max shift_direction g =
     (case randint 0 (py_int (real (length data) * shift_max)) g of
        Inl e \<Rightarrow> Inl e
      | Inr (shift_amt, g1) \<Rightarrow>
          if shift_direction = ''right'' then Inr (np_roll data (- shift_amt), g1)
          else if shift_direction = ''both'' then
            (case randint 0 2 g1 of
               Inl e \<Rightarrow> Inl e
             | Inr (direction, g2) \<Rightarrow>
                 Inr (np_roll data (if direction = 1 then - shift_amt else shift_amt), g2))
          else Inr (np_roll data shift_amt, g1))"

section \<open>Feature Extractor\<close>

subsection \<open>Two-dimensional arrays\<close>

text \<open>
  A NumPy matrix carries its shape even when one dimension is zero, so the shape is kept
  beside the rows.
\<close>

record 'a ndarray2 =
  nrows :: nat
  ncols :: nat
  rows :: "'a list list"

definition wf_array :: "'a ndarray2 \<Rightarrow> bool" where
  "wf_array A = (length (rows A) = nrows A \<and> list_all (\<lambda>r. length r = ncols A) (rows A))"

definition np_pad_cols :: "'a::zero ndarray2 \<Rightarrow> nat \<Rightarrow> 'a ndarray2" where
  \<comment> \<open>\<open>np.pad(A, pad_width=((0,0),(0,p)), mode='constant')\<close>\<close>
  "np_pad_cols A p =
     \<lparr>nrows = nrows A, ncols = ncols A + p, rows = map (\<lambda>r. r @ replicate p 0) (rows A)\<rparr>"

definition py_slice_stop :: "nat \<Rightarrow> int \<Rightarrow> nat" where
  \<comment> \<open>The end of the Python slice \<open>[:k]\<close> on a sequence of length \<open>n\<close>; a negative \<open>k\<close> counts from the end.\<close>
  "py_slice_stop n k = (if k < 0 then nat (int n + k) else min n (nat k))"

definition slice_cols :: "'a ndarray2 \<Rightarrow> int \<Rightarrow> 'a ndarray2" where
  \<comment> \<open>\<open>A[:, :k]\<close>\<close>
  "slice_cols A k =
     (let m = py_slice_stop (ncols A) k
      in \<lparr>nrows = nrows A, ncols = m, rows = map (take m) (rows A)\<rparr>)"

definition transpose_T :: "'a ndarray2 \<Rightarrow> 'a ndarray2" where
  \<comment> \<open>\<open>A.T\<close>\<close>
  "transpose_T A =
     \<lparr>nrows = ncols A, ncols = nrows A,
      rows = map (\<lambda>j. map (\<lambda>r. r ! j) (rows A)) [0..<ncols A]\<rparr>"

definition pad_or_truncate :: "'a::zero ndarray2 \<Rightarrow> int \<Rightarrow> 'a ndarray2" where
  \<comment> \<open>The \<open>if mfcc.shape[1] < max_len: ... else: ...\<close> block, written out three times in the notebook.\<close>
  "pad_or_truncate mfcc max_len =
     (if int (ncols mfcc) < max_len
      then (let pad_width = nat (max_len - int (ncols mfcc)) in np_pad_cols mfcc pad_width)
      else slice_cols mfcc max_len)"

subsection \<open>Consumed interfaces: decoding and spectral transforms\<close>

text \<open>
  The audio files on disk are a store from paths to decoded clips; a path that is absent
  or cannot be decoded has no entry, and \<open>librosa.load\<close> raises on it.  The spectral
  transforms of librosa are parameters of the model; each may raise.
\<close>

type_synonym filesystem = "string \<Rightarrow> audio option"

definition librosa_load :: "filesystem \<Rightarrow> string \<Rightarrow> exn + audio" where
  "librosa_load fs file_name =
     (case fs file_name of
        None \<Rightarrow> Inl (Exn AudioError (''cannot load '' @ file_name))
      | Some a \<Rightarrow> Inr a)"

record dsp =
  mfcc_fn :: "waveform \<Rightarrow> nat \<Rightarrow> nat \<Rightarrow> exn + real ndarray2"
  stft_abs_fn :: "waveform \<Rightarrow> exn + real ndarray2"
  chroma_fn :: "real ndarray2 \<Rightarrow> nat \<Rightarrow> exn + real ndarray2"
  mel_fn :: "waveform \<Rightarrow> nat \<Rightarrow> exn + real ndarray2"

definition extract_mfcc_sequence ::
    "filesystem \<Rightarrow> dsp \<Rightarrow> string \<Rightarrow> nat \<Rightarrow> int \<Rightarrow> exn + real ndarray2" where
  "extract_mfcc_sequence fs d file_path n_mfcc max_len =
     (case librosa_load fs file_path of
        Inl e \<Rightarrow> Inl e
      | Inr (y, sr) \<Rightarrow>
          (case mfcc_fn d y sr n_mfcc of
             Inl e \<Rightarrow> Inl e
           | Inr mfcc \<Rightarrow> Inr (transpose_T (pad_or_truncate mfcc max_len))))"

definition mean_T_axis0 :: "real ndarray2 \<Rightarrow> real list" where
  \<comment> \<open>\<open>np.mean(A.T, axis=0)\<close>: the mean of each row of \<open>A\<close> over its columns.\<close>
  "mean_T_axis0 A = map (\<lambda>r. sum_list r / real (ncols A)) (rows A)"

text \<open>
  In \<open>extract_feature\<close> the magnitude spectrogram \<open>stft\<close> is bound exactly when \<open>chroma\<close> is
  set, and read under the same flag: it is an option, \<open>Some\<close> exactly when \<open>chroma\<close> holds.
\<close>

definition extract_feature ::
    "filesystem \<Rightarrow> dsp \<Rightarrow> string \<Rightarrow> bool \<Rightarrow> bool \<Rightarrow> bool \<Rightarrow> exn + real list" where
  "extract_feature fs d file_name mfcc chroma mel =
     (case librosa_load fs file_name of
        Inl e \<Rightarrow> Inl e
      | Inr (X, sample_rate) \<Rightarrow>
          (case (if chroma then map_sum id Some (stft_abs_fn d X) else Inr None) of
             Inl e \<Rightarrow> Inl e
           | Inr stft \<Rightarrow>
               (case (if mfcc then map_sum id mean_T_axis0 (mfcc_fn d X sample_rate 40) else Inr []) of
                  Inl e \<Rightarrow> Inl e
                | Inr mfccs \<Rightarrow>
                    (case (case stft of
                             None \<Rightarrow> Inr []
                           | Some S \<Rightarrow> map_sum id mean_T_axis0 (chroma_fn d S sample_rate)) of
                       Inl e \<Rightarrow> Inl e
                     | Inr chroma_feat \<Rightarrow>
                         (case (if mel then map_sum id mean_T_axis0 (mel_fn d X sample_rate) else Inr []) of
                            Inl e \<Rightarrow> Inl e
                          | Inr mel_feat \<Rightarrow> Inr (([] @ mfccs) @ chroma_feat @ mel_feat))))))"

section \<open>Dataset Builder\<close>

definition emotions :: "(string \<times> string) list" where
  "emotions =
     [(''01'', ''neutral''), (''02'', ''calm''), (''03'', ''happy''), (''04'', ''sad''),
      (''05'', ''angry''), (''06'', ''fearful''), (''07'', ''disgust''), (''08'', ''surprised'')]"

definition observed_emotions :: "string list" where
  "observed_emotions = map snd emotions"

definition basename :: "string \<Rightarrow> string" where
  \<comment> \<open>\<open>os.path.basename\<close>: what follows the last slash.\<close>
  "basename p = rev (takeWhile (\<lambda>c. c \<noteq> CHR ''/'') (rev p))"

fun split_on :: "char \<Rightarrow> string \<Rightarrow> string list" where
  "split_on sep [] = [[]]"
| "split_on sep (c # cs) =
     (if c = sep then [] # split_on sep cs
      else (case split_on sep cs of [] \<Rightarrow> [[c]] | w # ws \<Rightarrow> (c # w) # ws))"

definition index_or_raise :: "'a list \<Rightarrow> nat \<Rightarrow> exn + 'a" where
  \<comment> \<open>\<open>xs[i]\<close> for a non-negative index\<close>
  "index_or_raise xs i =
     (if i < length xs then Inr (xs ! i) else Inl (Exn IndexError ''list index out of range''))"

record 'f build_state =
  x_acc :: "'f list"
  y_acc :: "string list"
  printed :: "string list"
  gen :: rng
  disk :: filesystem

definition append_example :: "'f \<Rightarrow> string \<Rightarrow> 'f build_state \<Rightarrow> 'f build_state" where
  \<comment> \<open>\<open>x.append(feature); y.append(emotion)\<close>\<close>
  "append_example feature emotion st =
     st\<lparr>x_acc := x_acc st @ [feature], y_acc := y_acc st @ [emotion]\<rparr>"

subsection \<open>Deep-learning path: the loop of \<open>load_data_dl\<close>\<close>

text \<open>
  The body of the \<open>try\<close> block for one clip.  It returns the state reached when the block
  ends, and the exception that ended it if there was one: what has been appended before
  a \<open>raise\<close> stays appended.
\<close>

definition try_block ::
    "dsp \<Rightarrow> int \<Rightarrow> bool \<Rightarrow> string \<Rightarrow> string \<Rightarrow> real ndarray2 build_state
       \<Rightarrow> exn option \<times> real ndarray2 build_state" where
  "try_block d max_len augment file emotion st =
     (case extract_mfcc_sequence (disk st) d file 40 max_len of
        Inl e \<Rightarrow> (Some e, st)
      | Inr mfcc_seq \<Rightarrow>
          (let st1 = append_example mfcc_seq emotion st in
           if \<not> augment then (None, st1)
           else
             (case librosa_load (disk st1) file of
                Inl e \<Rightarrow> (Some e, st1)
              | Inr (y_audio, sr) \<Rightarrow>
                  (let (noisy, g1) = add_noise y_audio 0.005 (gen st1);
                       st2 = st1\<lparr>gen := g1\<rparr>
                   in case mfcc_fn d noisy sr 40 of
                        Inl e \<Rightarrow> (Some e, st2)
                      | Inr mfcc_noise \<Rightarrow>
                          (let st3 = append_example
                                       (transpose_T (pad_or_truncate mfcc_noise max_len)) emotion st2
                           in case shift_wav y_audio 0.2 ''both'' (gen st3) of
                                Inl e \<Rightarrow> (Some e, st3)
                              | Inr (y_shift, g2) \<Rightarrow>
                                  (let st4 = st3\<lparr>gen := g2\<rparr>
                                   in case mfcc_fn d y_shift sr 40 of
                                        Inl e \<Rightarrow> (Some e, st4)
                                      | Inr mfcc_shift \<Rightarrow>
                                          (None,
                                           append_example
                                             (transpose_T (pad_or_truncate mfcc_shift max_len))
                                             emotion st4)))))))"

definition error_line :: "string \<Rightarrow> exn \<Rightarrow> string" where
  \<comment> \<open>\<open>f"Error processing {file}: {e}"\<close>\<close>
  "error_line file e = ''Error processing '' @ file @ '': '' @ exn_str e"

definition load_data_dl_step ::
    "dsp \<Rightarrow> int \<Rightarrow> bool \<Rightarrow> string \<Rightarrow> real ndarray2 build_state
       \<Rightarrow> exn + real ndarray2 build_state" where
  \<comment> \<open>One iteration of \<open>for file in files\<close>.\<close>
  "load_data_dl_step d max_len augment file st =
     (let file_name = basename file in
      case index_or_raise (split_on CHR ''-'' file_name) 2 of
        Inl e \<Rightarrow> Inl e
      | Inr emotion_code \<Rightarrow>
          (case map_of emotions emotion_code of
             None \<Rightarrow> Inr st
           | Some emotion \<Rightarrow>
               if emotion \<notin> set observed_emotions then Inr st
               else
                 (case try_block d max_len augment file emotion st of
                    (None, st') \<Rightarrow> Inr st'
                  | (Some e, st') \<Rightarrow> Inr (st'\<lparr>printed := printed st' @ [error_line file e]\<rparr>))))"

fun load_data_dl_loop ::
    "dsp \<Rightarrow> int \<Rightarrow> bool \<Rightarrow> string list \<Rightarrow> real ndarray2 build_state
       \<Rightarrow> exn + real ndarray2 build_state" where
  "load_data_dl_loop d max_len augment [] st = Inr st"
| "load_data_dl_loop d max_len augment (file # files) st =
     (case load_data_dl_step d max_len augment file st of
        Inl e \<Rightarrow> Inl e
      | Inr st' \<Rightarrow> load_data_dl_loop d max_len augment files st')"

subsection \<open>Classical path: the loop of \<open>load_data\<close>\<close>

text \<open>
  \<open>load_data\<close> has no \<open>try\<close>: every exception leaves the loop.  The shifted waveform is
  written to \<open>temp_shift.wav\<close>, extracted from there and the file removed, so the disk
  is part of the state.
\<close>

definition write_wav :: "string \<Rightarrow> waveform \<Rightarrow> nat \<Rightarrow> filesystem \<Rightarrow> filesystem" where
  "write_wav path y sr fs = fs(path \<mapsto> (y, sr))"

definition os_remove :: "string \<Rightarrow> filesystem \<Rightarrow> filesystem" where
  "os_remove path fs = fs(path := None)"

definition load_data_step ::
    "dsp \<Rightarrow> bool \<Rightarrow> string \<Rightarrow> real list build_state \<Rightarrow> exn + real list build_state" where
  "load_data_step d augment file st =
     (let file_name = basename file in
      case index_or_raise (split_on CHR ''-'' file_name) 2 of
        Inl e \<Rightarrow> Inl e
      | Inr code \<Rightarrow>
          (case map_of emotions code of
             None \<Rightarrow> Inl (Exn KeyError code)
           | Some emotion \<Rightarrow>
               if emotion \<notin> set observed_emotions then Inr st
               else
                 (case extract_feature (disk st) d file True True True of
                    Inl e \<Rightarrow> Inl e
                  | Inr feature \<Rightarrow>
                      (let st1 = append_example feature emotion st in
                       if \<not> augment then Inr st1
                       else
                         (case librosa_load (disk st1) file of
                            Inl e \<Rightarrow> Inl e
                          | Inr (y_audio, sr) \<Rightarrow>
                              (case extract_feature (disk st1) d file True True True of
                                 Inl e \<Rightarrow> Inl e
                               | Inr feature_noise \<Rightarrow>
                                   (let st2 = append_example feature_noise emotion st1 in
                                    case shift_wav y_audio 0.2 ''both'' (gen st2) of
                                      Inl e \<Rightarrow> Inl e
                                    | Inr (y_shift, g') \<Rightarrow>
                                        (let temp_file = ''temp_shift.wav'';
                                             fs1 = write_wav temp_file y_shift sr (disk st2)
                                         in case extract_feature fs1 d temp_file True True True of
                                              Inl e \<Rightarrow> Inl e
                                            | Inr feature_shift \<Rightarrow>
                                                Inr ((append_example feature_shift emotion st2)
                                                       \<lparr>gen := g', disk := os_remove temp_file fs1\<rparr>)))))))))"

fun load_data_loop ::
    "dsp \<Rightarrow> bool \<Rightarrow> string list \<Rightarrow> real list build_state \<Rightarrow> exn + real list build_state" where
  "load_data_loop d augment [] st = Inr st"
| "load_data_loop d augment (file # files) st =
     (case load_data_step d augment file st of
        Inl e \<Rightarrow> Inl e
      | Inr st' \<Rightarrow> load_data_loop d augment files st')"

definition init_state :: "filesystem \<Rightarrow> rng \<Rightarrow> 'f build_state" where
  \<comment> \<open>\<open>x, y = [], []\<close>, nothing printed yet\<close>
  "init_state fs g = \<lparr>x_acc = [], y_acc = [], printed = [], gen = g, disk = fs\<rparr>"

subsection \<open>Classical path: the split at the end of \<open>load_data\<close>\<close>

text \<open>
  \<open>load_data\<close> returns \<open>train_test_split(np.array(x), y, test_size=test_size, random_state=9)\<close>,
  with no \<open>stratify\<close> argument.  Without it scikit-learn validates the sizes, draws one
  permutation of the sample indices from a generator seeded with \<open>random_state\<close>, sends
  the first \<open>n_test\<close> indices to the test side and the following \<open>n_train\<close> to the train
  side, and indexes every array with them; the labels take no part in the choice.  The
  seeded permutation is a parameter of the model.
\<close>

definition train_test_split_plain ::
    "nat list \<Rightarrow> real \<Rightarrow> 'a list \<Rightarrow> 'b list \<Rightarrow> exn + ('a list \<times> 'a list \<times> 'b list \<times> 'b list)" where
  "train_test_split_plain permutation test_size X y =
     (let n_samples = length X in
      if length y \<noteq> n_samples
      then Inl (Exn ValueError ''Found input variables with inconsistent numbers of samples'')
      else if test_size \<le> 0 \<or> 1 \<le> test_size
      then Inl (Exn ValueError ''test_size should be in the (0, 1) range'')
      else
        (let n_test = nat \<lceil>test_size * real n_samples\<rceil>;
             n_train = n_samples - n_test
         in if n_train = 0
            then Inl (Exn ValueError ''the resulting train set will be empty'')
            else
              (let ind_test = take n_test permutation;
                   ind_train = take n_train (drop n_test permutation)
               in Inr (map ((!) X) ind_train, map ((!) X) ind_test,
                       map ((!) y) ind_train, map ((!) y) ind_test))))"

definition load_data_return ::
    "(nat \<Rightarrow> nat \<Rightarrow> nat list) \<Rightarrow> 'a list \<Rightarrow> string list \<Rightarrow> real
       \<Rightarrow> exn + ('a list \<times> 'a list \<times> string list \<times> string list)" where
  \<comment> \<open>The \<open>return\<close> statement of \<open>load_data\<close>; \<open>rs_permutation seed n\<close> stands for
      \<open>np.random.RandomState(seed).permutation(n)\<close>.\<close>
  "load_data_return rs_permutation x y test_size =
     train_test_split_plain (rs_permutation 9 (length x)) test_size x y"

subsection \<open>Label encoding\<close>

record label_encoder =
  classes :: "string list"

definition np_unique :: "'a::linorder list \<Rightarrow> 'a list" where
  \<comment> \<open>\<open>np.unique\<close>: the distinct values, sorted\<close>
  "np_unique vs = sort (remdups vs)"

definition fit :: "string list \<Rightarrow> label_encoder" where
  \<comment> \<open>\<open>LabelEncoder().fit(y)\<close>: \<open>classes_\<close> is \<open>np.unique(y)\<close>\<close>
  "fit y = \<lparr>classes = np_unique y\<rparr>"

section \<open>Class-Imbalance Corrector\<close>

definition compute_class_weight_balanced :: "nat list \<Rightarrow> nat list \<Rightarrow> real list" where
  \<comment> \<open>Modelled from the spec: \<open>sklearn.utils.class_weight.compute_class_weight('balanced', ...)\<close>
      is library code outside the notebooks; section 4.4 gives it as
      \<open>weight[c] = total_count / (num_classes * count[c])\<close>, one weight per entry of \<open>classes\<close>.\<close>
  "compute_class_weight_balanced cls y =
     map (\<lambda>c. real (length y) / (real (length cls) * real (count_list y c))) cls"

definition class_weight_dict :: "nat list \<Rightarrow> (nat \<rightharpoonup> real)" where
  \<comment> \<open>\<open>dict(enumerate(compute_class_weight('balanced', classes=np.unique(y), y=y)))\<close>\<close>
  "class_weight_dict y_train_labels =
     (let class_weights = compute_class_weight_balanced (np_unique y_train_labels) y_train_labels
      in map_of (enumerate 0 class_weights))"

section \<open>Predictor\<close>

fun argmax_scan :: "'a::linorder list \<Rightarrow> nat \<Rightarrow> nat \<Rightarrow> 'a \<Rightarrow> nat" where
  \<comment> \<open>scan from index \<open>i\<close> on, holding the first index \<open>best\<close> of the largest value so far\<close>
  "argmax_scan [] i best bv = best"
| "argmax_scan (v # vs) i best bv =
     (if bv < v then argmax_scan vs (Suc i) i v else argmax_scan vs (Suc i) best bv)"

definition np_argmax :: "'a::linorder list list \<Rightarrow> exn + nat" where
  \<comment> \<open>\<open>np.argmax\<close> without an axis: the first index of the maximum of the flattened array\<close>
  "np_argmax pred =
     (case concat pred of
        [] \<Rightarrow> Inl (Exn ValueError ''attempt to get argmax of an empty sequence'')
      | v # vs \<Rightarrow> Inr (argmax_scan vs 1 0 v))"

definition predict_emotion ::
    "filesystem \<Rightarrow> dsp \<Rightarrow> string \<Rightarrow> (real ndarray2 list \<Rightarrow> real list list) \<Rightarrow> label_encoder \<Rightarrow> int
       \<Rightarrow> exn + string" where
  \<comment> \<open>\<open>model\<close> stands for \<open>model.predict\<close>, from a batch of sequences to a batch of score rows.\<close>
  "predict_emotion fs d file_path model le max_len =
     (case extract_mfcc_sequence fs d file_path 40 max_len of
        Inl e \<Rightarrow> Inl e
      | Inr mfcc_seq \<Rightarrow>
          (let batch = [mfcc_seq];
               pred = model batch
           in case np_argmax pred of
                Inl e \<Rightarrow> Inl e
              | Inr predicted_class \<Rightarrow> index_or_raise (classes le) predicted_class))"

subsection \<open>Observations of a build\<close>

text \<open>
  What a build leaves behind: the dataset (features and labels) or the exception that
  ended it, and the number of examples.  Two states hold the same data when they differ
  at most in what has been printed.
\<close>

definition same_data :: "'f build_state \<Rightarrow> 'f build_state \<Rightarrow> bool" where
  "same_data s t = (x_acc s = x_acc t \<and> y_acc s = y_acc t \<and> gen s = gen t \<and> disk s = disk t)"

definition dataset_of :: "exn + 'f build_state \<Rightarrow> exn + ('f list \<times> string list)" where
  "dataset_of r = (case r of Inl e \<Rightarrow> Inl e | Inr s \<Rightarrow> Inr (x_acc s, y_acc s))"

definition dataset_size :: "exn + 'f build_state \<Rightarrow> exn + nat" where
  "dataset_size r = (case r of Inl e \<Rightarrow> Inl e | Inr s \<Rightarrow> Inr (length (x_acc s)))"

section \<open>Concrete inputs\<close>

text \<open>A generator state, a ten-sample waveform, stand-ins for the transforms and a small disk.\<close>

definition rng0 :: rng where
  "rng0 = \<lparr>ints = sconst 3, normals = sconst (1/2)\<rparr>"

definition wave10 :: waveform where
  "wave10 = [1, 2, 3, 4, 5, 6, 7, 8, 9, 10]"

definition dsp0 :: dsp where
  "dsp0 = \<lparr>mfcc_fn = (\<lambda>y sr n. Inr \<lparr>nrows = n, ncols = length y div 2,
                                      rows = replicate n (take (length y div 2) y)\<rparr>),
           stft_abs_fn = (\<lambda>y. Inr \<lparr>nrows = 1, ncols = length y, rows = [y]\<rparr>),
           chroma_fn = (\<lambda>S sr. Inr S),
           mel_fn = (\<lambda>y sr. Inr \<lparr>nrows = 1, ncols = length y, rows = [y]\<rparr>)\<rparr>"

definition clip_angry :: string where
  "clip_angry = ''/data/Actor_01/03-01-05-01-01-01-01.wav''"

definition clip_calm :: string where
  "clip_calm = ''/data/Actor_02/03-01-02-01-01-01-02.wav''"

definition disk0 :: filesystem where
  "disk0 = [clip_angry \<mapsto> (wave10, 22050), clip_calm \<mapsto> (rev wave10, 22050)]"

definition clip_sad :: string where
  "clip_sad = ''/data/Actor_03/03-01-04-01-01-01-03.wav''"

definition clip_malformed :: string where
  "clip_malformed = ''/data/Actor_01/notes.wav''"

definition clip_unknown_code :: string where
  "clip_unknown_code = ''/data/Actor_01/03-01-09-01-01-01-01.wav''"

definition disk1 :: filesystem where
  "disk1 = disk0(clip_sad \<mapsto> (wave10, 22050))"

definition labels_300_300_150 :: "nat list" where
  "labels_300_300_150 = replicate 300 0 @ replicate 300 1 @ replicate 150 2"

definition model0 :: "real ndarray2 list \<Rightarrow> real list list" where
  "model0 batch = map (\<lambda>_. [1/4, 3/4]) batch"

definition identity_permutation :: "nat \<Rightarrow> nat \<Rightarrow> nat list" where
  "identity_permutation seed n = [0..<n]"

definition features10 :: "real list list" where
  "features10 = map (\<lambda>v. [v]) wave10"

section \<open>Properties of the Augmentor\<close>

lemma mset_drop_take: "mset (drop m xs @ take m xs) = mset xs"
proof -
  have "mset (drop m xs @ take m xs) = mset (take m xs @ drop m xs)"
    by (simp only: mset_append add.commute)
  then show ?thesis by simp
qed

lemma mset_np_roll: "mset (np_roll xs k) = mset xs"
  by (simp add: np_roll_def Let_def mset_drop_take del: mset_append)

lemma length_np_roll: "length (np_roll xs k) = length xs"
  by (simp add: np_roll_def Let_def)

lemma np_roll_rotate: "np_roll xs k = rotate (length xs - nat (k mod int (length xs))) xs"
proof (cases "xs = []")
  case True then show ?thesis by (simp add: np_roll_def)
next
  case False
  let ?n = "length xs"
  let ?off = "nat (k mod int ?n)"
  have "?n - ?off \<le> ?n" by simp
  show ?thesis
  proof (cases "?off = 0")
    case True
    then show ?thesis using False by (simp add: np_roll_def Let_def)
  next
    case off: False
    have lt: "?n - ?off < ?n" using off False by simp
    then have "(?n - ?off) mod ?n = ?n - ?off" by simp
    then show ?thesis using False by (simp add: np_roll_def Let_def rotate_drop_take)
  qed
qed

lemma np_roll_inverse: "np_roll (np_roll xs k) (- k) = xs"
proof (cases "xs = []")
  case True then show ?thesis by (simp add: np_roll_def)
next
  case False
  let ?n = "length xs"
  let ?a = "nat (k mod int ?n)"
  let ?b = "nat ((- k) mod int ?n)"
  have npos: "0 < int ?n" using False by simp
  have a: "int ?a = k mod int ?n" using npos by simp
  have b: "int ?b = (- k) mod int ?n" using npos by simp
  have "k mod int ?n < int ?n" using npos by simp
  then have ale: "?a \<le> ?n" by linarith
  have "(- k) mod int ?n < int ?n" using npos by simp
  then have ble: "?b \<le> ?n" by linarith
  have "(int ?a + int ?b) mod int ?n = 0"
    unfolding a b by (simp add: mod_add_eq)
  then have ab: "(?a + ?b) mod ?n = 0"
    by (metis of_nat_add of_nat_mod of_nat_eq_0_iff)
  have "(?n - ?b) + (?n - ?a) + (?a + ?b) = 2 * ?n" using ale ble by arith
  then have "((?n - ?b) + (?n - ?a) + (?a + ?b)) mod ?n = 0" by simp
  then have "((?n - ?b) + (?n - ?a) + (?a + ?b) mod ?n) mod ?n = 0"
    by (simp only: mod_add_right_eq)
  then have "((?n - ?b) + (?n - ?a)) mod ?n = 0" using ab by simp
  then have "rotate ((?n - ?b) + (?n - ?a)) xs = xs"
    by (metis rotate_conv_mod rotate0 id_apply)
  then show ?thesis
    by (simp add: np_roll_rotate rotate_rotate)
qed

lemma randint_range:
  "randint lo hi g = Inr (r, g') \<Longrightarrow> lo \<le> r \<and> r < hi"
proof -
  assume a: "randint lo hi g = Inr (r, g')"
  then have lt: "lo < hi" by (simp add: randint_def split: if_splits)
  from a lt have r: "r = lo + int (shd (ints g) mod nat (hi - lo))"
    by (simp add: randint_def)
  have "0 < nat (hi - lo)" using lt by simp
  then have "shd (ints g) mod nat (hi - lo) < nat (hi - lo)" by (rule mod_less_divisor)
  then have "int (shd (ints g) mod nat (hi - lo)) < hi - lo" using lt by linarith
  with r show ?thesis by simp
qed

lemma shift_returns_iff:
  "(\<exists>out g'. shift_wav data shift_max dir g = Inr (out, g'))
     = (0 < py_int (real (length data) * shift_max))"
  by (auto simp: shift_wav_def randint_def split: sum.splits if_splits)

lemma shift_is_roll:
  assumes "shift_wav data shift_max dir g = Inr (out, g')"
  shows "\<exists>k. \<bar>k\<bar> < py_int (real (length data) * shift_max) \<and> out = np_roll data k"
proof -
  let ?h = "py_int (real (length data) * shift_max)"
  from assms obtain a g1 where r: "randint 0 ?h g = Inr (a, g1)"
    by (auto simp: shift_wav_def split: sum.splits)
  then have a: "0 \<le> a \<and> a < ?h" by (rule randint_range)
  from assms r have "out = np_roll data a \<or> out = np_roll data (- a)"
    by (auto simp: shift_wav_def split: sum.splits if_splits)
  then show ?thesis
  proof
    assume "out = np_roll data a"
    with a show ?thesis by (intro exI[of _ a]) simp
  next
    assume "out = np_roll data (- a)"
    with a show ?thesis by (intro exI[of _ "- a"]) simp
  qed
qed

lemma shift_empty_range:
  "real (length data) * shift_max < 1
     \<Longrightarrow> shift_wav data shift_max dir g = Inl (Exn ValueError ''high <= 0'')"
  by (simp add: shift_wav_def randint_def py_int_def)

text \<open>
  C6: when \<open>len(waveform) * max_fraction < 1\<close> the draw range is empty and \<open>shift_wav\<close> should
  return the waveform unchanged without raising.  The code passes the empty range to
  \<open>np.random.randint\<close>, which raises (\<open>shift_empty_range\<close>): on a four-sample waveform
  with the default \<open>shift_max = 0.2\<close> the call ends in a \<open>ValueError\<close>.
\<close>

theorem shift_short_waveform_raises:
  "shift_wav [1/10, 2/10, 3/10, 4/10] (1/5) ''both'' rng0 = Inl (Exn ValueError ''high <= 0'')"
  by (simp add: shift_wav_def randint_def py_int_def)

text \<open>
  C8: \<open>shift_wav\<close> is a circular rotation.  It returns exactly when the draw range is not
  empty, and whatever it returns is \<open>np.roll\<close> of the input by some \<open>k\<close> below the range
  bound in magnitude: a permutation of the input samples, of the same length, which the
  rotation by \<open>-k\<close> turns back into the input.
\<close>

theorem shift_circular_rotation:
  "((\<exists>out g'. shift_wav data shift_max dir g = Inr (out, g'))
      = (0 < py_int (real (length data) * shift_max)))
   \<and> (\<forall>out g'. shift_wav data shift_max dir g = Inr (out, g') \<longrightarrow>
        (\<exists>k. \<bar>k\<bar> < py_int (real (length data) * shift_max) \<and> out = np_roll data k
           \<and> mset out = mset data \<and> length out = length data
           \<and> np_roll out (- k) = data))"
proof (intro conjI allI impI)
  show "(\<exists>out g'. shift_wav data shift_max dir g = Inr (out, g'))
      = (0 < py_int (real (length data) * shift_max))" by (rule shift_returns_iff)
next
  fix out g' assume "shift_wav data shift_max dir g = Inr (out, g')"
  then obtain k where "\<bar>k\<bar> < py_int (real (length data) * shift_max)" "out = np_roll data k"
    using shift_is_roll by blast
  then show "\<exists>k. \<bar>k\<bar> < py_int (real (length data) * shift_max) \<and> out = np_roll data k
           \<and> mset out = mset data \<and> length out = length data
           \<and> np_roll out (- k) = data"
    by (intro exI[of _ k]) (simp add: mset_np_roll length_np_roll np_roll_inverse)
qed

theorem shift_circular_rotation_witness:
  "shift_wav wave10 (1/5) ''both'' rng0 = Inr ([2, 3, 4, 5, 6, 7, 8, 9, 10, 1], rng0)
   \<and> (\<exists>k. \<bar>k\<bar> < 2 \<and> [2, 3, 4, 5, 6, 7, 8, 9, 10, 1] = np_roll wave10 k
          \<and> mset [2, 3, 4, 5, 6, 7, 8, 9, 10, 1 :: real] = mset wave10
          \<and> np_roll [2, 3, 4, 5, 6, 7, 8, 9, 10, 1] (- k) = wave10)"
proof -
  have run: "shift_wav wave10 (1/5) ''both'' rng0 = Inr ([2, 3, 4, 5, 6, 7, 8, 9, 10, 1], rng0)"
    by (simp add: shift_wav_def randint_def py_int_def wave10_def rng0_def np_roll_def)
  have bound: "py_int (real (length wave10) * (1/5)) = 2"
    by (simp add: py_int_def wave10_def)
  from shift_circular_rotation[of wave10 "1/5" "''both''" rng0] run
  obtain k where k: "\<bar>k\<bar> < py_int (real (length wave10) * (1/5))"
      "[2, 3, 4, 5, 6, 7, 8, 9, 10, 1] = np_roll wave10 k"
      "mset [2, 3, 4, 5, 6, 7, 8, 9, 10, 1 :: real] = mset wave10"
      "np_roll [2, 3, 4, 5, 6, 7, 8, 9, 10, 1] (- k) = wave10"
    by blast
  from k(1) have "\<bar>k\<bar> < 2" unfolding bound .
  with k(2,3,4) run show ?thesis by blast
qed

text \<open>
  A \<open>shift_direction\<close> other than \<open>'right'\<close> and \<open>'both'\<close> is not validated: the call
  behaves exactly as for \<open>'left'\<close>.  With a non-empty draw range it rotates by the drawn
  magnitude, not negated, and consumes one draw; with an empty one it raises, whatever
  the direction.
\<close>

lemma shift_other_direction:
  assumes "shift_direction \<noteq> ''right''" and "shift_direction \<noteq> ''both''"
  shows "shift_wav data shift_max shift_direction g = shift_wav data shift_max ''left'' g
     \<and> shift_wav data shift_max shift_direction g =
         (let high = py_int (real (length data) * shift_max) in
          if 0 < high
          then Inr (np_roll data (int (shd (ints g) mod nat high)), g\<lparr>ints := stl (ints g)\<rparr>)
          else Inl (Exn ValueError ''high <= 0''))"
  using assms by (simp add: shift_wav_def randint_def Let_def)

lemma shift_other_direction_example:
  "''up'' \<noteq> ''right'' \<and> ''up'' \<noteq> ''both''
   \<and> shift_wav wave10 (1/5) ''up'' rng0 = shift_wav wave10 (1/5) ''left'' rng0
   \<and> shift_wav wave10 (1/5) ''up'' rng0 = Inr ([10, 1, 2, 3, 4, 5, 6, 7, 8, 9], rng0)"
proof -
  have h1: "''up'' \<noteq> ''right''" and h2: "''up'' \<noteq> ''both''" by simp_all
  have bound: "py_int (real (length wave10) * (1/5)) = 2"
    by (simp add: py_int_def wave10_def)
  have roll: "np_roll wave10 1 = [10, 1, 2, 3, 4, 5, 6, 7, 8, 9]"
    by (simp add: np_roll_def wave10_def)
  have g: "rng0\<lparr>ints := stl (ints rng0)\<rparr> = rng0" and d: "shd (ints rng0) = 3"
    by (simp_all add: rng0_def)
  note t = shift_other_direction[OF h1 h2, of wave10 "1/5" rng0]
  have "shift_wav wave10 (1/5) ''up'' rng0 = Inr (np_roll wave10 (int (3 mod nat 2)), rng0)"
    using t[THEN conjunct2] unfolding bound d g Let_def by simp
  then have "shift_wav wave10 (1/5) ''up'' rng0 = Inr ([10, 1, 2, 3, 4, 5, 6, 7, 8, 9], rng0)"
    by (simp add: roll)
  with t h1 h2 show ?thesis by blast
qed

text \<open>
  C10: for every waveform, a \<open>shift_direction\<close> other than \<open>'right'\<close> and \<open>'both'\<close> should
  raise no error and rotate by the drawn magnitude, as \<open>'left'\<close> does.  The direction is
  indeed never checked (\<open>shift_other_direction\<close>), but the draw comes before the
  direction is read, and on a waveform with \<open>len(waveform) * shift_max < 1\<close> it raises:
  with the unrecognised direction \<open>'up'\<close>, and with \<open>'left'\<close>, a four-sample waveform at the
  default \<open>shift_max = 0.2\<close> ends in the \<open>ValueError\<close> of the empty draw range.
\<close>

theorem shift_unchecked_direction_raises:
  "shift_wav [1/10, 2/10, 3/10, 4/10] (1/5) ''up'' rng0 = Inl (Exn ValueError ''high <= 0'')
   \<and> shift_wav [1/10, 2/10, 3/10, 4/10] (1/5) ''left'' rng0 = Inl (Exn ValueError ''high <= 0'')"
  by (simp add: shift_wav_def randint_def py_int_def)

section \<open>Properties of the Feature Extractor\<close>

lemma wf_pad_or_truncate:
  assumes "wf_array M" "0 \<le> L"
  shows "wf_array (pad_or_truncate M L) \<and> nrows (pad_or_truncate M L) = nrows M
          \<and> ncols (pad_or_truncate M L) = nat L"
  using assms
  by (auto simp: wf_array_def pad_or_truncate_def np_pad_cols_def slice_cols_def Let_def
        py_slice_stop_def list_all_iff)

lemma pad_or_truncate_entry:
  assumes "wf_array M" "0 \<le> L" "c < nrows M" "t < nat L"
  shows "rows (pad_or_truncate M L) ! c ! t = (if t < ncols M then rows M ! c ! t else 0)"
proof -
  have len: "length (rows M ! c) = ncols M"
    using assms(1,3) by (simp add: wf_array_def list_all_length)
  show ?thesis
  proof (cases "int (ncols M) < L")
    case True
    then show ?thesis using assms len
      by (simp add: pad_or_truncate_def np_pad_cols_def wf_array_def nth_append)
  next
    case False
    then have "t < ncols M" using assms by linarith
    then show ?thesis using False assms len
      by (simp add: pad_or_truncate_def slice_cols_def Let_def py_slice_stop_def wf_array_def)
  qed
qed

lemma wf_transpose_T:
  "wf_array A \<Longrightarrow> wf_array (transpose_T A) \<and> nrows (transpose_T A) = ncols A
     \<and> ncols (transpose_T A) = nrows A"
  by (simp add: wf_array_def transpose_T_def list_all_iff)

lemma transpose_T_entry:
  "t < ncols A \<Longrightarrow> c < length (rows A) \<Longrightarrow> rows (transpose_T A) ! t ! c = rows A ! c ! t"
  by (simp add: transpose_T_def)

text \<open>
  C1: for a clip that decodes and whose MFCC matrix has \<open>n_mfcc\<close> rows and \<open>T\<close> columns,
  \<open>extract_mfcc_sequence\<close> returns the transpose of the matrix right-padded with zero
  columns when \<open>T < max_len\<close> and cut to its first \<open>max_len\<close> columns otherwise: a
  \<open>max_len\<close> by \<open>n_mfcc\<close> array whose entry \<open>(t, c)\<close> is coefficient \<open>c\<close> of frame \<open>t\<close>
  for \<open>t < T\<close> and zero beyond.
\<close>

theorem extract_mfcc_sequence_shape:
  assumes "fs file_path = Some (y, sr)"
    and "mfcc_fn d y sr n_mfcc = Inr M"
    and "wf_array M" and "nrows M = n_mfcc"
    and "0 \<le> max_len"
  shows "\<exists>R. extract_mfcc_sequence fs d file_path n_mfcc max_len = Inr R
           \<and> R = transpose_T (if int (ncols M) < max_len
                               then np_pad_cols M (nat (max_len - int (ncols M)))
                               else slice_cols M max_len)
           \<and> wf_array R \<and> nrows R = nat max_len \<and> ncols R = n_mfcc
           \<and> (\<forall>t<nat max_len. \<forall>c<n_mfcc.
                 rows R ! t ! c = (if t < ncols M then rows M ! c ! t else 0))"
proof -
  let ?P = "pad_or_truncate M max_len"
  have run: "extract_mfcc_sequence fs d file_path n_mfcc max_len = Inr (transpose_T ?P)"
    using assms(1,2) by (simp add: extract_mfcc_sequence_def librosa_load_def)
  have P: "wf_array ?P" "nrows ?P = n_mfcc" "ncols ?P = nat max_len"
    using wf_pad_or_truncate[OF assms(3,5)] assms(4) by simp_all
  have shape: "wf_array (transpose_T ?P)" "nrows (transpose_T ?P) = nat max_len"
      "ncols (transpose_T ?P) = n_mfcc"
    using wf_transpose_T[OF P(1)] P by simp_all
  have entries: "\<forall>t<nat max_len. \<forall>c<n_mfcc.
       rows (transpose_T ?P) ! t ! c = (if t < ncols M then rows M ! c ! t else 0)"
  proof (intro allI impI)
    fix t c assume t: "t < nat max_len" and c: "c < n_mfcc"
    have "length (rows ?P) = n_mfcc" using P by (simp add: wf_array_def)
    then have "rows (transpose_T ?P) ! t ! c = rows ?P ! c ! t"
      using t c P by (simp add: transpose_T_entry)
    also have "\<dots> = (if t < ncols M then rows M ! c ! t else 0)"
      using pad_or_truncate_entry[OF assms(3,5)] c t assms(4) by simp
    finally show "rows (transpose_T ?P) ! t ! c = (if t < ncols M then rows M ! c ! t else 0)" .
  qed
  have eq: "?P = (if int (ncols M) < max_len
                               then np_pad_cols M (nat (max_len - int (ncols M)))
                               else slice_cols M max_len)"
    by (simp add: pad_or_truncate_def)
  show ?thesis using run shape entries eq by simp
qed

theorem extract_mfcc_sequence_shape_witness:
  "\<exists>R. extract_mfcc_sequence disk0 dsp0 clip_angry 2 7 = Inr R
        \<and> wf_array R \<and> nrows R = 7 \<and> ncols R = 2
        \<and> rows R = [[1, 1], [2, 2], [3, 3], [4, 4], [5, 5], [0, 0], [0, 0]]"
proof -
  let ?M = "\<lparr>nrows = 2, ncols = 5, rows = [[1, 2, 3, 4, 5], [1, 2, 3, 4, 5 :: real]]\<rparr>"
  have h1: "disk0 clip_angry = Some (wave10, 22050)"
    by (simp add: disk0_def clip_angry_def clip_calm_def)
  have h2: "mfcc_fn dsp0 wave10 22050 2 = Inr ?M"
  proof -
    have len: "length wave10 div 2 = 5" by (simp add: wave10_def)
    have tk: "take 5 wave10 = [1, 2, 3, 4, 5]" by (simp add: wave10_def)
    have rp: "replicate 2 [1, 2, 3, 4, 5 :: real] = [[1, 2, 3, 4, 5], [1, 2, 3, 4, 5]]"
      by (simp add: numeral_2_eq_2)
    show ?thesis by (simp add: dsp0_def len tk rp)
  qed
  have h3: "wf_array ?M" by (simp add: wf_array_def)
  have h4: "nrows ?M = 2" by simp
  have h5: "(0::int) \<le> 7" by simp
  from extract_mfcc_sequence_shape[where fs = disk0 and file_path = clip_angry, OF h1 h2 h3 h4 h5]
  obtain R where R: "extract_mfcc_sequence disk0 dsp0 clip_angry 2 7 = Inr R"
     "R = transpose_T (if int (ncols ?M) < 7
                               then np_pad_cols ?M (nat (7 - int (ncols ?M)))
                               else slice_cols ?M 7)"
    "wf_array R" "nrows R = nat 7" "ncols R = 2" by blast
  have "rows R = [[1, 1], [2, 2], [3, 3], [4, 4], [5, 5], [0, 0], [0, 0]]"
    unfolding R(2) by (simp add: transpose_T_def np_pad_cols_def upt_rec numeral_nat)
  with R show ?thesis by simp
qed

section \<open>Properties of the Dataset Builder\<close>

subsection \<open>The loop of \<open>load_data_dl\<close>\<close>

lemma same_data_printed: "same_data s t \<Longrightarrow> t = s\<lparr>printed := printed t\<rparr>"
  by (simp add: same_data_def)

lemma try_block_printed:
  "try_block d L a f e (st\<lparr>printed := p\<rparr>)
     = (case try_block d L a f e st of (eo, s) \<Rightarrow> (eo, s\<lparr>printed := p\<rparr>))"
  by (simp add: try_block_def append_example_def Let_def split: sum.splits prod.splits)

lemma try_block_same_printed:
  "try_block d L a f e st = (eo, s) \<Longrightarrow> printed s = printed st \<and> disk s = disk st"
  by (auto simp: try_block_def append_example_def Let_def split: sum.splits prod.splits if_splits)

lemma emotions_observed: "map_of emotions code = Some e \<Longrightarrow> e \<in> set observed_emotions"
  unfolding observed_emotions_def by (metis map_of_SomeD image_eqI set_map snd_conv)

lemma load_data_dl_step_printed:
  "rel_sum (=) same_data (load_data_dl_step d L a f s) (load_data_dl_step d L a f (s\<lparr>printed := p\<rparr>))"
  by (auto simp: load_data_dl_step_def Let_def try_block_printed same_data_def
        split: sum.splits option.splits prod.splits)

lemma load_data_dl_step_same:
  assumes "same_data s t"
  shows "rel_sum (=) same_data (load_data_dl_step d L a f s) (load_data_dl_step d L a f t)"
proof -
  have "t = s\<lparr>printed := printed t\<rparr>" using assms by (rule same_data_printed)
  then show ?thesis using load_data_dl_step_printed[of d L a f s "printed t"] by simp
qed

lemma load_data_dl_loop_same:
  "same_data s t \<Longrightarrow>
     rel_sum (=) same_data (load_data_dl_loop d L a files s) (load_data_dl_loop d L a files t)"
proof (induction files arbitrary: s t)
  case Nil
  then show ?case by simp
next
  case (Cons f files)
  from load_data_dl_step_same[OF Cons.prems, of d L a f] Cons.IH
  show ?case
    by (cases "load_data_dl_step d L a f s"; cases "load_data_dl_step d L a f t") auto
qed

lemma load_data_dl_loop_append:
  "load_data_dl_loop d L a (pre @ post) st =
     (case load_data_dl_loop d L a pre st of
        Inl e \<Rightarrow> Inl e
      | Inr s \<Rightarrow> load_data_dl_loop d L a post s)"
  by (induction pre arbitrary: st) (auto split: sum.splits)

lemma load_data_dl_step_disk:
  "load_data_dl_step d L a f st = Inr st' \<Longrightarrow> disk st' = disk st"
  by (auto simp: load_data_dl_step_def Let_def split: sum.splits option.splits prod.splits if_splits
        dest: try_block_same_printed)

lemma load_data_dl_loop_disk:
  "load_data_dl_loop d L a files st = Inr st' \<Longrightarrow> disk st' = disk st"
  by (induction files arbitrary: st) (auto split: sum.splits dest: load_data_dl_step_disk)

lemma load_data_dl_step_printed_mono:
  "load_data_dl_step d L a f st = Inr st' \<Longrightarrow> set (printed st) \<subseteq> set (printed st')"
  by (auto simp: load_data_dl_step_def Let_def split: sum.splits option.splits prod.splits if_splits
        dest: try_block_same_printed)

lemma load_data_dl_loop_printed_mono:
  "load_data_dl_loop d L a files st = Inr st' \<Longrightarrow> set (printed st) \<subseteq> set (printed st')"
proof (induction files arbitrary: st)
  case Nil then show ?case by simp
next
  case (Cons f files)
  then obtain s where s: "load_data_dl_step d L a f st = Inr s" "load_data_dl_loop d L a files s = Inr st'"
    by (auto split: sum.splits)
  from load_data_dl_step_printed_mono[OF s(1)] Cons.IH[OF s(2)] show ?case by blast
qed

lemma load_data_dl_step_extraction_fails:
  assumes "index_or_raise (split_on CHR ''-'' (basename file)) 2 = Inr code"
    and "map_of emotions code = Some emotion"
    and "extract_mfcc_sequence (disk st) d file 40 L = Inl e"
  shows "load_data_dl_step d L a file st = Inr (st\<lparr>printed := printed st @ [error_line file e]\<rparr>)"
  using assms emotions_observed[OF assms(2)]
  by (simp add: load_data_dl_step_def try_block_def)

lemma extract_mfcc_sequence_unreadable:
  "fs p = None \<Longrightarrow>
     extract_mfcc_sequence fs d p n L = Inl (Exn AudioError (''cannot load '' @ p))"
  by (simp add: extract_mfcc_sequence_def librosa_load_def)

lemma load_data_dl_step_unreadable:
  assumes "index_or_raise (split_on CHR ''-'' (basename file)) 2 = Inr code"
    and "map_of emotions code = Some emotion"
    and "disk st file = None"
  shows "load_data_dl_step d L a file st =
           Inr (st\<lparr>printed := printed st @ [error_line file (Exn AudioError (''cannot load '' @ file))]\<rparr>)"
proof -
  have "extract_mfcc_sequence (disk st) d file 40 L = Inl (Exn AudioError (''cannot load '' @ file))"
    using assms(3) by (simp add: extract_mfcc_sequence_unreadable)
  then show ?thesis by (rule load_data_dl_step_extraction_fails[OF assms(1,2)])
qed

lemma dataset_of_same:
  "rel_sum (=) same_data r r' \<Longrightarrow> dataset_of r = dataset_of r'"
  by (auto simp: dataset_of_def same_data_def elim!: rel_sum.cases)

lemma load_data_dl_step_unknown_code:
  assumes "index_or_raise (split_on CHR ''-'' (basename file)) 2 = Inr code"
    and "map_of emotions code = None"
  shows "load_data_dl_step d L a file st = Inr st"
  using assms by (simp add: load_data_dl_step_def)

lemma try_block_augment:
  assumes "disk st file = Some (y, sr)"
    and "mfcc_fn d y sr 40 = Inr M0"
    and "add_noise y 0.005 (gen st) = (y_noise, g1)"
    and "mfcc_fn d y_noise sr 40 = Inr M1"
    and "shift_wav y 0.2 ''both'' g1 = Inr (y_shift, g2)"
    and "mfcc_fn d y_shift sr 40 = Inr M2"
  shows "try_block d max_len True file emotion st =
          (None, st\<lparr>x_acc := x_acc st @ [transpose_T (pad_or_truncate M0 max_len),
                                           transpose_T (pad_or_truncate M1 max_len),
                                           transpose_T (pad_or_truncate M2 max_len)],
                     y_acc := y_acc st @ [emotion, emotion, emotion],
                     gen := g2\<rparr>)"
  using assms
  by (simp add: try_block_def extract_mfcc_sequence_def librosa_load_def append_example_def)

lemma try_block_plain:
  assumes "disk st file = Some (y, sr)"
    and "mfcc_fn d y sr 40 = Inr M0"
  shows "try_block d max_len False file emotion st =
          (None, st\<lparr>x_acc := x_acc st @ [transpose_T (pad_or_truncate M0 max_len)],
                     y_acc := y_acc st @ [emotion]\<rparr>)"
  using assms
  by (simp add: try_block_def extract_mfcc_sequence_def librosa_load_def append_example_def)

lemma load_data_dl_step_readable:
  assumes code: "index_or_raise (split_on CHR ''-'' (basename file)) 2 = Inr code"
    and emo: "map_of emotions code = Some emotion"
    and ok: "disk st file = Some (y, sr)"
    and total: "\<And>w r n. \<exists>M. mfcc_fn d w r n = Inr M"
    and long: "0 < py_int (real (length y) * 0.2)"
  shows "\<exists>st'. load_data_dl_step d L a file st = Inr st'
           \<and> length (x_acc st') = length (x_acc st) + (if a then 3 else 1)
           \<and> y_acc st' = y_acc st @ replicate (if a then 3 else 1) emotion
           \<and> disk st' = disk st \<and> printed st' = printed st"
proof -
  note obs = emotions_observed[OF emo]
  obtain M0 where M0: "mfcc_fn d y sr 40 = Inr M0" using total by blast
  show ?thesis
  proof (cases a)
    case False
    from try_block_plain[OF ok M0, of L emotion] False code emo obs
    show ?thesis by (simp add: load_data_dl_step_def)
  next
    case True
    obtain y_noise g1 where n: "add_noise y 0.005 (gen st) = (y_noise, g1)"
      by (cases "add_noise y 0.005 (gen st)")
    obtain M1 where M1: "mfcc_fn d y_noise sr 40 = Inr M1" using total by blast
    obtain y_shift g2 where s: "shift_wav y 0.2 ''both'' g1 = Inr (y_shift, g2)"
      using shift_returns_iff[of y "0.2" "''both''" g1] long by blast
    obtain M2 where M2: "mfcc_fn d y_shift sr 40 = Inr M2" using total by blast
    from try_block_augment[OF ok M0 n M1 s M2, of L emotion] True code emo obs
    show ?thesis by (simp add: load_data_dl_step_def numeral_3_eq_3)
  qed
qed

lemma observed_emotions_eight:
  "observed_emotions =
     [''neutral'', ''calm'', ''happy'', ''sad'', ''angry'', ''fearful'', ''disgust'', ''surprised'']"
  by (simp add: observed_emotions_def emotions_def)

lemma try_block_labels:
  "try_block d L a f e st = (eo, s) \<Longrightarrow> set (y_acc s) \<subseteq> insert e (set (y_acc st))"
  by (auto simp: try_block_def append_example_def Let_def split: sum.splits prod.splits if_splits)

lemma load_data_dl_step_labels:
  assumes "load_data_dl_step d L a f st = Inr st'" "set (y_acc st) \<subseteq> set observed_emotions"
  shows "set (y_acc st') \<subseteq> set observed_emotions"
  using assms
  by (auto simp: load_data_dl_step_def Let_def split: sum.splits option.splits prod.splits if_splits
        dest!: try_block_labels)

lemma load_data_dl_loop_labels:
  "load_data_dl_loop d L a files st = Inr st' \<Longrightarrow> set (y_acc st) \<subseteq> set observed_emotions
    \<Longrightarrow> set (y_acc st') \<subseteq> set observed_emotions"
proof (induction files arbitrary: st)
  case Nil then show ?case by simp
next
  case (Cons f files)
  then obtain s where s: "load_data_dl_step d L a f st = Inr s" "load_data_dl_loop d L a files s = Inr st'"
    by (auto split: sum.splits)
  from load_data_dl_step_labels[OF s(1) Cons.prems(2)] Cons.IH[OF s(2)] show ?case by blast
qed

subsection \<open>The loop of \<open>load_data\<close>\<close>

lemma load_data_step_augment:
  assumes "load_data_step d True file st = Inr st'"
  shows "\<exists>feature feature_shift emotion.
           extract_feature (disk st) d file True True True = Inr feature
           \<and> x_acc st' = x_acc st @ [feature, feature, feature_shift]
           \<and> y_acc st' = y_acc st @ [emotion, emotion, emotion]"
  using assms
  by (auto simp: load_data_step_def Let_def append_example_def
        split: sum.splits option.splits prod.splits if_splits dest: emotions_observed)

subsection \<open>Evaluation on the concrete inputs\<close>

lemma parse_angry: "index_or_raise (split_on CHR ''-'' (basename clip_angry)) 2 = Inr ''05''"
  by (simp add: clip_angry_def basename_def index_or_raise_def)

lemma parse_calm: "index_or_raise (split_on CHR ''-'' (basename clip_calm)) 2 = Inr ''02''"
  by (simp add: clip_calm_def basename_def index_or_raise_def)

lemma parse_sad: "index_or_raise (split_on CHR ''-'' (basename clip_sad)) 2 = Inr ''04''"
  by (simp add: clip_sad_def basename_def index_or_raise_def)

lemma parse_malformed:
  "index_or_raise (split_on CHR ''-'' (basename clip_malformed)) 2
     = Inl (Exn IndexError ''list index out of range'')"
  by (simp add: clip_malformed_def basename_def index_or_raise_def)

lemma parse_unknown: "index_or_raise (split_on CHR ''-'' (basename clip_unknown_code)) 2 = Inr ''09''"
  by (simp add: clip_unknown_code_def basename_def index_or_raise_def)

lemma emo_angry: "map_of emotions ''05'' = Some ''angry''"
  by (simp add: emotions_def)
lemma emo_calm: "map_of emotions ''02'' = Some ''calm''"
  by (simp add: emotions_def)
lemma emo_sad: "map_of emotions ''04'' = Some ''sad''"
  by (simp add: emotions_def)
lemma emo_unknown: "map_of emotions ''09'' = None"
  by (simp add: emotions_def)

lemma bound10: "py_int (real (length wave10) * 0.2) = 2"
  by (simp add: py_int_def wave10_def)

lemma extract_feature_dsp0:
  "fs p = Some (y, sr) \<Longrightarrow> \<exists>F. extract_feature fs dsp0 p True True True = Inr F"
  by (simp add: extract_feature_def librosa_load_def dsp0_def)

lemma shift_wave10_both: "shift_wav wave10 0.2 ''both'' rng0 = Inr ([2, 3, 4, 5, 6, 7, 8, 9, 10, 1], rng0)"
  by (simp add: shift_wav_def randint_def py_int_def wave10_def rng0_def np_roll_def)

lemma disk0_angry: "disk0 clip_angry = Some (wave10, 22050)"
  by (simp add: disk0_def clip_angry_def clip_calm_def)

lemma dsp0_total: "\<exists>M. mfcc_fn dsp0 w r n = Inr M"
  by (simp add: dsp0_def)

lemma disk0_sad: "disk0 clip_sad = None"
  by (simp add: disk0_def clip_sad_def clip_angry_def clip_calm_def)

lemma disk0_calm: "disk0 clip_calm = Some (rev wave10, 22050)"
  by (simp add: disk0_def clip_angry_def clip_calm_def)

lemma disk1_angry: "disk1 clip_angry = Some (wave10, 22050)"
  by (simp add: disk1_def disk0_def clip_sad_def clip_angry_def clip_calm_def)

lemma disk1_sad: "disk1 clip_sad = Some (wave10, 22050)"
  by (simp add: disk1_def)

lemma bound10r: "py_int (real (length (rev wave10)) * 0.2) = 2"
  by (simp add: py_int_def wave10_def)

lemma extract_mfcc_sequence_dsp0:
  "fs p = Some (y, sr) \<Longrightarrow> \<exists>F. extract_mfcc_sequence fs dsp0 p n L = Inr F"
  by (simp add: extract_mfcc_sequence_def librosa_load_def dsp0_def)

lemma classes_fit_two: "classes (fit [''angry'', ''calm'']) = [''angry'', ''calm'']"
  by (simp add: fit_def np_unique_def)

subsection \<open>Claims about the Dataset Builder\<close>

text \<open>
  C2: with augmentation enabled, every included clip contributes, beside its
  un-augmented feature, a feature of a noise-perturbed variant and a feature of a
  time-shifted variant, all under the same label.  \<open>load_data_dl\<close> does so
  (\<open>try_block_augment\<close>).  \<open>load_data\<close> does not: under its comment \<open># Add noise\<close> it
  calls \<open>extract_feature\<close> on the file itself and never calls \<open>add_noise\<close>, so the second
  example of every clip is a copy of the first (\<open>load_data_step_augment\<close>).  On a corpus
  of one clip the build returns three examples, and the first two are the same feature
  of the unperturbed file.
\<close>

theorem load_data_noise_feature_is_copy:
  "\<exists>st. load_data_loop dsp0 True [clip_angry] (init_state disk0 rng0) = Inr st
       \<and> length (x_acc st) = 3
       \<and> x_acc st ! 1 = x_acc st ! 0
       \<and> extract_feature disk0 dsp0 clip_angry True True True = Inr (x_acc st ! 1)"
proof -
  let ?st0 = "init_state disk0 rng0 :: real list build_state"
  obtain F where F: "extract_feature disk0 dsp0 clip_angry True True True = Inr F"
    using extract_feature_dsp0[of disk0 clip_angry, OF disk0_angry] by blast
  let ?fs1 = "write_wav ''temp_shift.wav'' [2, 3, 4, 5, 6, 7, 8, 9, 10, 1] 22050 disk0"
  have "?fs1 ''temp_shift.wav'' = Some ([2, 3, 4, 5, 6, 7, 8, 9, 10, 1], 22050)"
    by (simp add: write_wav_def)
  then obtain F2 where F2: "extract_feature ?fs1 dsp0 ''temp_shift.wav'' True True True = Inr F2"
    using extract_feature_dsp0[of ?fs1 "''temp_shift.wav''"] by blast
  have obs: "''angry'' \<in> set observed_emotions" using emotions_observed[OF emo_angry] .
  have step: "\<exists>st. load_data_step dsp0 True clip_angry ?st0 = Inr st"
    using parse_angry emo_angry obs F F2 disk0_angry shift_wave10_both
    by (simp add: load_data_step_def init_state_def librosa_load_def append_example_def Let_def)
  then obtain st where st: "load_data_step dsp0 True clip_angry ?st0 = Inr st" by blast
  from load_data_step_augment[OF st] F
  have "length (x_acc st) = 3 \<and> x_acc st ! 1 = x_acc st ! 0 \<and> Inr (x_acc st ! 1) = (Inr F :: exn + real list)"
    by (auto simp: init_state_def)
  with st F show ?thesis by auto
qed

text \<open>
  C3: a clip whose filename has no third hyphen-delimited token, or whose third token is
  not in the table, should be skipped silently.  \<open>load_data_dl\<close> skips an unknown code
  (\<open>load_data_dl_step_unknown_code\<close>), but both loops index the split filename before
  any check, outside the \<open>try\<close>: a filename with fewer than three tokens raises
  \<open>IndexError\<close> and ends the build.  \<open>load_data\<close> indexes the table directly, so there an
  unknown code raises \<open>KeyError\<close>.
\<close>

theorem malformed_filename_aborts_build:
  "load_data_dl_loop dsp0 200 True [clip_malformed, clip_angry] (init_state disk0 rng0)
     = Inl (Exn IndexError ''list index out of range'')
   \<and> load_data_loop dsp0 False [clip_malformed, clip_angry] (init_state disk0 rng0)
     = Inl (Exn IndexError ''list index out of range'')
   \<and> load_data_loop dsp0 False [clip_unknown_code, clip_angry] (init_state disk0 rng0)
     = Inl (Exn KeyError ''09'')"
  using parse_malformed parse_unknown emo_unknown
  by (simp add: load_data_dl_step_def load_data_step_def)

text \<open>
  C4, as stated: a corrupt file leaves the dataset with one example fewer than a fully
  readable corpus.  With augmentation, the default of \<open>load_data_dl\<close>, it is three fewer.
\<close>

theorem corrupt_clip_costs_three_examples:
  "dataset_size (load_data_dl_loop dsp0 200 True [clip_angry, clip_sad] (init_state disk0 rng0)) = Inr 3
   \<and> dataset_size (load_data_dl_loop dsp0 200 True [clip_angry, clip_sad] (init_state disk1 rng0)) = Inr 6"
proof -
  let ?s0 = "init_state disk0 rng0 :: real ndarray2 build_state"
  let ?t0 = "init_state disk1 rng0 :: real ndarray2 build_state"
  have long: "0 < py_int (real (length wave10) * 0.2)" unfolding bound10 by simp
  have d0: "disk ?s0 clip_angry = Some (wave10, 22050)" by (simp add: init_state_def disk0_angry)
  from load_data_dl_step_readable[OF parse_angry emo_angry d0 dsp0_total long, of 200 True]
  obtain s1 where s1: "load_data_dl_step dsp0 200 True clip_angry ?s0 = Inr s1"
      "length (x_acc s1) = 3" "disk s1 = disk0"
    by (auto simp: init_state_def)
  have "disk s1 clip_sad = None" using s1(3) disk0_sad by simp
  from load_data_dl_step_unreadable[OF parse_sad emo_sad this, of dsp0 200 True]
  obtain s2 where s2: "load_data_dl_step dsp0 200 True clip_sad s1 = Inr s2" "x_acc s2 = x_acc s1"
    by simp
  have first: "dataset_size (load_data_dl_loop dsp0 200 True [clip_angry, clip_sad] ?s0) = Inr 3"
    using s1 s2 by (simp add: dataset_size_def)
  have e0: "disk ?t0 clip_angry = Some (wave10, 22050)" by (simp add: init_state_def disk1_angry)
  from load_data_dl_step_readable[OF parse_angry emo_angry e0 dsp0_total long, of 200 True]
  obtain t1 where t1: "load_data_dl_step dsp0 200 True clip_angry ?t0 = Inr t1"
      "length (x_acc t1) = 3" "disk t1 = disk1"
    by (auto simp: init_state_def)
  have e1: "disk t1 clip_sad = Some (wave10, 22050)" using t1(3) disk1_sad by simp
  from load_data_dl_step_readable[OF parse_sad emo_sad e1 dsp0_total long, of 200 True]
  obtain t2 where t2: "load_data_dl_step dsp0 200 True clip_sad t1 = Inr t2"
      "length (x_acc t2) = 6"
    using t1(2) by auto
  have second: "dataset_size (load_data_dl_loop dsp0 200 True [clip_angry, clip_sad] ?t0) = Inr 6"
    using t1 t2 by (simp add: dataset_size_def)
  from first second show ?thesis by simp
qed

text \<open>
  C4, amended: when the extraction of a clip with a recognised label raises, as it does
  on a file that cannot be decoded, \<open>load_data_dl\<close> catches the exception, prints
  \<open>Error processing <path>: <exception>\<close>, which names the path,
  appends nothing for the clip and goes on.  The build over the corpus ends exactly as
  the build over the corpus without that clip: the same dataset, or the same exception
  if some other clip raises one; so the dataset lacks the examples of that clip, one
  without augmentation and up to three with it.
\<close>

theorem load_data_dl_skips_unreadable:
  assumes code: "index_or_raise (split_on CHR ''-'' (basename file)) 2 = Inr code"
    and emo: "map_of emotions code = Some emotion"
    and bad: "extract_mfcc_sequence (disk st0) d file 40 max_len = Inl e"
  shows "dataset_of (load_data_dl_loop d max_len augment (pre @ file # post) st0)
           = dataset_of (load_data_dl_loop d max_len augment (pre @ post) st0)
       \<and> (\<forall>s. load_data_dl_loop d max_len augment (pre @ file # post) st0 = Inr s \<longrightarrow>
             ''Error processing '' @ file @ '': '' @ exn_str e \<in> set (printed s))"
proof (cases "load_data_dl_loop d max_len augment pre st0")
  case (Inl e')
  then show ?thesis by (simp add: load_data_dl_loop_append dataset_of_def)
next
  case (Inr s1)
  let ?line = "error_line file e"
  let ?s2 = "s1\<lparr>printed := printed s1 @ [?line]\<rparr>"
  have "extract_mfcc_sequence (disk s1) d file 40 max_len = Inl e"
    using load_data_dl_loop_disk[OF Inr] bad by simp
  then have step: "load_data_dl_step d max_len augment file s1 = Inr ?s2"
    by (rule load_data_dl_step_extraction_fails[OF code emo])
  have with_file: "load_data_dl_loop d max_len augment (pre @ file # post) st0
            = load_data_dl_loop d max_len augment post ?s2"
    using Inr step by (simp add: load_data_dl_loop_append)
  have without: "load_data_dl_loop d max_len augment (pre @ post) st0
            = load_data_dl_loop d max_len augment post s1"
    using Inr by (simp add: load_data_dl_loop_append)
  have "same_data ?s2 s1" by (simp add: same_data_def)
  then have "dataset_of (load_data_dl_loop d max_len augment post ?s2)
           = dataset_of (load_data_dl_loop d max_len augment post s1)"
    by (intro dataset_of_same load_data_dl_loop_same)
  then have first: "dataset_of (load_data_dl_loop d max_len augment (pre @ file # post) st0)
           = dataset_of (load_data_dl_loop d max_len augment (pre @ post) st0)"
    using with_file without by simp
  have second: "''Error processing '' @ file @ '': '' @ exn_str e \<in> set (printed s)"
    if "load_data_dl_loop d max_len augment (pre @ file # post) st0 = Inr s" for s
  proof -
    from that with_file have "load_data_dl_loop d max_len augment post ?s2 = Inr s" by simp
    from load_data_dl_loop_printed_mono[OF this] have "?line \<in> set (printed s)" by auto
    then show ?thesis unfolding error_line_def .
  qed
  from first second show ?thesis by blast
qed

theorem load_data_dl_skips_unreadable_witness:
  "index_or_raise (split_on CHR ''-'' (basename clip_sad)) 2 = Inr ''04''
   \<and> map_of emotions ''04'' = Some ''sad''
   \<and> extract_mfcc_sequence (disk (init_state disk0 rng0 :: real ndarray2 build_state)) dsp0 clip_sad 40 200
       = Inl (Exn AudioError (''cannot load '' @ clip_sad))
   \<and> dataset_of (load_data_dl_loop dsp0 200 False [clip_angry, clip_sad, clip_calm] (init_state disk0 rng0))
       = dataset_of (load_data_dl_loop dsp0 200 False [clip_angry, clip_calm] (init_state disk0 rng0))
   \<and> (\<exists>s. load_data_dl_loop dsp0 200 False [clip_angry, clip_sad, clip_calm] (init_state disk0 rng0) = Inr s
          \<and> length (x_acc s) = 2
          \<and> y_acc s = [''angry'', ''calm'']
          \<and> ''Error processing '' @ clip_sad @ '': cannot load '' @ clip_sad \<in> set (printed s))"
proof -
  let ?s0 = "init_state disk0 rng0 :: real ndarray2 build_state"
  have "disk ?s0 clip_sad = None" by (simp add: init_state_def disk0_sad)
  then have bad: "extract_mfcc_sequence (disk ?s0) dsp0 clip_sad 40 200
                    = Inl (Exn AudioError (''cannot load '' @ clip_sad))"
    by (simp add: extract_mfcc_sequence_unreadable)
  note inst = load_data_dl_skips_unreadable[OF parse_sad emo_sad bad,
                of False "[clip_angry]" "[clip_calm]"]
  have long: "0 < py_int (real (length wave10) * 0.2)" unfolding bound10 by simp
  have longr: "0 < py_int (real (length (rev wave10)) * 0.2)" unfolding bound10r by simp
  have d0: "disk ?s0 clip_angry = Some (wave10, 22050)" by (simp add: init_state_def disk0_angry)
  from load_data_dl_step_readable[OF parse_angry emo_angry d0 dsp0_total long, of 200 False]
  obtain s1 where s1: "load_data_dl_step dsp0 200 False clip_angry ?s0 = Inr s1"
      "y_acc s1 = [''angry'']" "length (x_acc s1) = 1" "disk s1 = disk0"
    by (auto simp: init_state_def)
  have "disk s1 clip_sad = None" using s1(4) disk0_sad by simp
  from load_data_dl_step_unreadable[OF parse_sad emo_sad this, of dsp0 200 False]
  obtain s2 where s2: "load_data_dl_step dsp0 200 False clip_sad s1 = Inr s2"
      "x_acc s2 = x_acc s1" "y_acc s2 = y_acc s1" "disk s2 = disk s1"
    by simp
  have d2: "disk s2 clip_calm = Some (rev wave10, 22050)" using s2(4) s1(4) disk0_calm by simp
  from load_data_dl_step_readable[OF parse_calm emo_calm d2 dsp0_total longr, of 200 False]
  obtain s3 where s3: "load_data_dl_step dsp0 200 False clip_calm s2 = Inr s3"
      "y_acc s3 = [''angry'', ''calm'']" "length (x_acc s3) = 2"
    using s2 s1 by auto
  have run: "load_data_dl_loop dsp0 200 False [clip_angry, clip_sad, clip_calm] ?s0 = Inr s3"
    using s1 s2 s3 by simp
  from inst run have "''Error processing '' @ clip_sad @ '': cannot load '' @ clip_sad \<in> set (printed s3)"
    by simp
  with inst run s3 parse_sad emo_sad bad show ?thesis by simp
qed

lemma count_list_map_upt:
  "count_list (map f [0..<n]) v = card {k. k < n \<and> f k = v}"
proof -
  have "count_list (map f [0..<n]) v = length (filter (\<lambda>k. f k = v) [0..<n])"
    by (induction n) (auto simp: count_list_append)
  also have "\<dots> = card {i. i < n \<and> f ([0..<n] ! i) = v}"
    by (simp add: length_filter_conv_card)
  also have "\<dots> = card {k. k < n \<and> f k = v}"
    by (rule arg_cong[where f = card]) auto
  finally show ?thesis .
qed

text \<open>
  C5: the split of every built dataset should be stratified on the string label, each
  class keeping its proportion in both partitions.  \<open>load_data_dl\<close> asks for that with
  \<open>stratify=y\<close>; \<open>load_data\<close> does not pass \<open>stratify\<close>, so its split never looks at the
  labels.  Whatever permutation the seed yields for ten samples, there is a dataset of
  five \<open>angry\<close> and five \<open>calm\<close> clips whose test partition at \<open>test_size = 0.2\<close> holds
  two \<open>angry\<close> clips and no \<open>calm\<close> one.
\<close>

theorem load_data_split_ignores_labels:
  assumes perm: "mset (rs_permutation 9 10) = mset [0..<10]"
    and lx: "length x = 10"
  shows "\<exists>y. length y = 10 \<and> set y \<subseteq> set observed_emotions
           \<and> count_list y ''angry'' = 5 \<and> count_list y ''calm'' = 5
           \<and> (\<exists>x_train x_test y_train.
                 load_data_return rs_permutation x y 0.2
                   = Inr (x_train, x_test, y_train, [''angry'', ''angry'']))"
proof -
  let ?p = "rs_permutation 9 10"
  have len: "length ?p = 10" using mset_eq_length[OF perm] by simp
  have dist: "distinct ?p" using mset_eq_imp_distinct_iff[OF perm] by simp
  have setp: "set ?p = {0..<10}" using mset_eq_setD[OF perm] by simp
  define A where "A = set (take 5 ?p)"
  define y where "y = map (\<lambda>k. if k \<in> A then ''angry'' else ''calm'') [0..<10]"
  have cardA: "card A = 5"
    unfolding A_def using dist len by (simp add: distinct_card)
  have Asub: "A \<subseteq> {0..<10}"
    unfolding A_def using setp set_take_subset[of 5 ?p] by blast
  have finA: "finite A" unfolding A_def by simp
  have ly: "length y = 10" by (simp add: y_def)
  have obs: "set y \<subseteq> set observed_emotions"
    by (auto simp: y_def observed_emotions_def emotions_def)
  have "{k. k < 10 \<and> (if k \<in> A then ''angry'' else ''calm'') = ''angry''} = A"
    using Asub by auto
  then have ca: "count_list y ''angry'' = 5"
    unfolding y_def count_list_map_upt using cardA by simp
  have "{k. k < 10 \<and> (if k \<in> A then ''angry'' else ''calm'') = ''calm''} = {0..<10} - A"
    by auto
  moreover have "card ({0..<10} - A) = 5"
    using cardA Asub finA by (simp add: card_Diff_subset)
  ultimately have cc: "count_list y ''calm'' = 5"
    unfolding y_def count_list_map_upt by simp
  have t2: "take 2 ?p = [?p ! 0, ?p ! 1]"
    using len by (simp add: take_Suc_conv_app_nth numeral_2_eq_2)
  have inA: "?p ! 0 \<in> A" "?p ! 1 \<in> A"
    unfolding A_def using len by (auto simp: in_set_conv_nth intro: exI[of _ 0] exI[of _ 1])
  have yA: "y ! k = ''angry''" if "k \<in> A" for k
    using that Asub by (auto simp: y_def)
  have test: "map ((!) y) (take 2 ?p) = [''angry'', ''angry'']"
    unfolding t2 using inA yA by simp
  have n_test: "nat \<lceil>0.2 * real (10::nat)\<rceil> = 2" by simp
  have "\<exists>x_train x_test y_train.
          load_data_return rs_permutation x y 0.2 = Inr (x_train, x_test, y_train, [''angry'', ''angry''])"
    using lx ly test n_test
    by (simp add: load_data_return_def train_test_split_plain_def Let_def)
  with ly obs ca cc show ?thesis by blast
qed

theorem load_data_split_ignores_labels_witness:
  "mset (identity_permutation 9 10) = mset [0..<10] \<and> length features10 = 10
   \<and> (\<exists>y. length y = 10 \<and> count_list y ''angry'' = 5 \<and> count_list y ''calm'' = 5
          \<and> (\<exists>x_train x_test y_train.
                load_data_return identity_permutation features10 y 0.2
                  = Inr (x_train, x_test, y_train, [''angry'', ''angry''])))"
proof -
  have h1: "mset (identity_permutation 9 10) = mset [0..<10]"
    by (simp add: identity_permutation_def)
  have h2: "length features10 = 10" by (simp add: features10_def wave10_def)
  from load_data_split_ignores_labels[where rs_permutation = identity_permutation and x = features10,
      OF h1 h2] h1 h2
  show ?thesis by blast
qed

section \<open>Properties of the Class-Imbalance Corrector\<close>

lemma np_unique_range:
  assumes "set y = {0..<k}"
  shows "np_unique y = [0..<k]"
proof -
  have "sorted (np_unique y)" "distinct (np_unique y)" "set (np_unique y) = set [0..<k]"
    using assms by (simp_all add: np_unique_def)
  moreover have "sorted [0..<k]" "distinct [0..<k]" by simp_all
  ultimately show ?thesis by (metis sorted_distinct_set_unique)
qed

lemma map_of_enumerate_0:
  "map_of (enumerate 0 ws) i = (if i < length ws then Some (ws ! i) else None)"
proof (cases "i < length ws")
  case True
  have "map_of (zip [0..<length ws] ws) ([0..<length ws] ! i) = Some (ws ! i)"
    by (rule map_of_zip_nth) (use True in simp_all)
  then show ?thesis using True by (simp add: enumerate_eq_zip)
next
  case False
  then have "i \<notin> fst ` set (enumerate 0 ws)" by (auto simp: enumerate_eq_zip dest: set_zip_leftD)
  then have "map_of (enumerate 0 ws) i = None" by (simp add: map_of_eq_None_iff)
  then show ?thesis using False by simp
qed

lemma class_weight_dict_lookup:
  assumes "set y = {0..<k}"
  shows "class_weight_dict y c =
           (if c < k then Some (real (length y) / (real k * real (count_list y c))) else None)"
  using assms by (simp add: class_weight_dict_def compute_class_weight_balanced_def
        np_unique_range[OF assms] map_of_enumerate_0)

lemma count_list_replicate: "count_list (replicate n x) v = (if x = v then n else 0)"
  by (induction n) auto

text \<open>
  C7: for integer training labels in which each of the \<open>num_classes\<close> class indices
  occurs, \<open>class_weight_dict\<close> maps every class \<open>c\<close> to
  \<open>total_count / (num_classes * count[c])\<close> and has no other key; a class half as
  frequent as another gets twice its weight, as for the counts 300, 300 and 150.
\<close>

theorem class_weight_dict_balanced:
  assumes "set y_train_labels = {0..<num_classes}"
  shows "(\<forall>c<num_classes.
            class_weight_dict y_train_labels c =
              Some (real (length y_train_labels)
                     / (real num_classes * real (count_list y_train_labels c))))
       \<and> dom (class_weight_dict y_train_labels) = {0..<num_classes}
       \<and> (\<forall>a c wa wc. count_list y_train_labels a = 2 * count_list y_train_labels c
              \<and> class_weight_dict y_train_labels a = Some wa
              \<and> class_weight_dict y_train_labels c = Some wc \<longrightarrow> wc = 2 * wa)"
proof (intro conjI allI impI)
  fix c assume "c < num_classes"
  then show "class_weight_dict y_train_labels c =
              Some (real (length y_train_labels)
                     / (real num_classes * real (count_list y_train_labels c)))"
    by (simp add: class_weight_dict_lookup[OF assms])
next
  show "dom (class_weight_dict y_train_labels) = {0..<num_classes}"
    by (auto simp: class_weight_dict_lookup[OF assms] dom_def split: if_splits)
next
  fix a c wa wc
  assume h: "count_list y_train_labels a = 2 * count_list y_train_labels c
              \<and> class_weight_dict y_train_labels a = Some wa
              \<and> class_weight_dict y_train_labels c = Some wc"
  then have wa: "wa = real (length y_train_labels)
                     / (real num_classes * real (2 * count_list y_train_labels c))"
    and wc: "wc = real (length y_train_labels)
                     / (real num_classes * real (count_list y_train_labels c))"
    by (auto simp: class_weight_dict_lookup[OF assms] split: if_splits)
  show "wc = 2 * wa" unfolding wa wc by simp
qed

theorem class_weight_dict_balanced_witness:
  "set labels_300_300_150 = {0..<3}
   \<and> class_weight_dict labels_300_300_150 0 = Some (5/6)
   \<and> class_weight_dict labels_300_300_150 1 = Some (5/6)
   \<and> class_weight_dict labels_300_300_150 2 = Some (5/3)
   \<and> (5/3 :: real) = 2 * (5/6)"
proof -
  have s: "set labels_300_300_150 = {0..<3}"
    by (auto simp: labels_300_300_150_def)
  have n: "length labels_300_300_150 = 750" by (simp add: labels_300_300_150_def)
  have c: "count_list labels_300_300_150 0 = 300" "count_list labels_300_300_150 1 = 300"
      "count_list labels_300_300_150 2 = 150"
    by (simp_all add: labels_300_300_150_def count_list_replicate)
  have c1: "count_list labels_300_300_150 (Suc 0) = 300" using c(2) by simp
  from class_weight_dict_balanced[OF s]
  have "\<forall>c<3. class_weight_dict labels_300_300_150 c =
              Some (real (length labels_300_300_150)
                     / (real 3 * real (count_list labels_300_300_150 c)))" by blast
  then have "class_weight_dict labels_300_300_150 0 = Some (5/6)"
     "class_weight_dict labels_300_300_150 1 = Some (5/6)"
     "class_weight_dict labels_300_300_150 2 = Some (5/3)"
    by (simp_all add: n c c1)
  with s show ?thesis by simp
qed

section \<open>Properties of the Predictor\<close>

lemma argmax_scan_max:
  assumes "best < length pre" and "\<forall>j<length pre. pre ! j \<le> pre ! best"
  shows "argmax_scan vs (length pre) best (pre ! best) < length (pre @ vs)
         \<and> (\<forall>j<length (pre @ vs).
               (pre @ vs) ! j \<le> (pre @ vs) ! argmax_scan vs (length pre) best (pre ! best))"
  using assms
proof (induction vs arbitrary: pre best)
  case Nil
  then show ?case by simp
next
  case (Cons v vs)
  let ?pre = "pre @ [v]"
  have app: "?pre @ vs = pre @ v # vs" by simp
  show ?case
  proof (cases "pre ! best < v")
    case True
    have b: "length pre < length ?pre" by simp
    have nb: "?pre ! length pre = v" by simp
    have m: "\<forall>j<length ?pre. ?pre ! j \<le> ?pre ! length pre"
    proof (intro allI impI)
      fix j assume j: "j < length ?pre"
      show "?pre ! j \<le> ?pre ! length pre"
      proof (cases "j < length pre")
        case True
        then have "?pre ! j = pre ! j" by (simp add: nth_append)
        also have "\<dots> \<le> pre ! best" using Cons.prems(2) True by blast
        also have "\<dots> \<le> v" using \<open>pre ! best < v\<close> by simp
        finally show ?thesis using nb by simp
      next
        case False
        then have "j = length pre" using j by simp
        then show ?thesis by simp
      qed
    qed
    from Cons.IH[OF b m] have
      "argmax_scan vs (length ?pre) (length pre) v < length (?pre @ vs)
       \<and> (\<forall>j<length (?pre @ vs).
            (?pre @ vs) ! j \<le> (?pre @ vs) ! argmax_scan vs (length ?pre) (length pre) v)"
      unfolding nb .
    moreover have "argmax_scan (v # vs) (length pre) best (pre ! best)
                     = argmax_scan vs (length ?pre) (length pre) v"
      using True by simp
    ultimately show ?thesis unfolding app by simp
  next
    case False
    have b: "best < length ?pre" using Cons.prems(1) by simp
    have pb: "?pre ! best = pre ! best" using Cons.prems(1) by (simp add: nth_append)
    have m: "\<forall>j<length ?pre. ?pre ! j \<le> ?pre ! best"
    proof (intro allI impI)
      fix j assume j: "j < length ?pre"
      show "?pre ! j \<le> ?pre ! best"
      proof (cases "j < length pre")
        case True
        then have "?pre ! j = pre ! j" by (simp add: nth_append)
        also have "\<dots> \<le> pre ! best" using Cons.prems(2) True by blast
        finally show ?thesis using pb by simp
      next
        case F: False
        then have "j = length pre" using j by simp
        then have "?pre ! j = v" by simp
        then show ?thesis using False pb by simp
      qed
    qed
    from Cons.IH[OF b m] have
      "argmax_scan vs (length ?pre) best (pre ! best) < length (?pre @ vs)
       \<and> (\<forall>j<length (?pre @ vs).
            (?pre @ vs) ! j \<le> (?pre @ vs) ! argmax_scan vs (length ?pre) best (pre ! best))"
      unfolding pb .
    moreover have "argmax_scan (v # vs) (length pre) best (pre ! best)
                     = argmax_scan vs (length ?pre) best (pre ! best)"
      using False by simp
    ultimately show ?thesis unfolding app by simp
  qed
qed

lemma np_argmax_row:
  assumes "row \<noteq> []"
  shows "\<exists>k. np_argmax [row] = Inr k \<and> k < length row \<and> (\<forall>j<length row. row ! j \<le> row ! k)"
proof -
  obtain v vs where row: "row = v # vs" using assms by (cases row) auto
  have "argmax_scan vs (length [v]) 0 ([v] ! 0) < length ([v] @ vs)
         \<and> (\<forall>j<length ([v] @ vs).
               ([v] @ vs) ! j \<le> ([v] @ vs) ! argmax_scan vs (length [v]) 0 ([v] ! 0))"
    by (rule argmax_scan_max) simp_all
  then have "argmax_scan vs 1 0 v < length row
         \<and> (\<forall>j<length row. row ! j \<le> row ! argmax_scan vs 1 0 v)"
    unfolding row by simp
  moreover have "np_argmax [row] = Inr (argmax_scan vs 1 0 v)"
    unfolding row by (simp add: np_argmax_def)
  ultimately show ?thesis by blast
qed

lemma set_classes_fit: "set (classes (fit y)) = set y"
  by (simp add: fit_def np_unique_def)

text \<open>
  C9: for a clip whose sequence is extracted, a model whose score row has one entry per
  class of the encoder, and an encoder fitted on the labels of a dataset built by
  \<open>load_data_dl\<close>, \<open>predict_emotion\<close> returns \<open>classes_[argmax(model(batch of one))]\<close>:
  the class at an index whose score no other score exceeds, whatever the scores are,
  and that class is one of the eight emotion labels.  The function returns the label
  only: it has no state to change.
\<close>

theorem predict_emotion_argmax:
  assumes build: "load_data_dl_loop d0 len0 augment files (init_state fs0 g) = Inr st"
    and le: "le = fit (y_acc st)"
    and feat: "extract_mfcc_sequence fs d file_path 40 max_len = Inr mfcc_seq"
    and out: "model [mfcc_seq] = [row]"
    and width: "length row = length (classes le)" "row \<noteq> []"
  shows "\<exists>k. np_argmax (model [mfcc_seq]) = Inr k
           \<and> k < length row \<and> (\<forall>j<length row. row ! j \<le> row ! k)
           \<and> predict_emotion fs d file_path model le max_len = Inr (classes le ! k)
           \<and> classes le ! k \<in> set observed_emotions"
proof -
  from np_argmax_row[OF width(2)] obtain k where
    k: "np_argmax [row] = Inr k" "k < length row" "\<forall>j<length row. row ! j \<le> row ! k"
    by blast
  have kc: "k < length (classes le)" using k(2) width(1) by simp
  have run: "predict_emotion fs d file_path model le max_len = Inr (classes le ! k)"
    using feat out k(1) kc by (simp add: predict_emotion_def index_or_raise_def)
  have "set (y_acc st) \<subseteq> set observed_emotions"
    using load_data_dl_loop_labels[OF build] by (simp add: init_state_def)
  then have "set (classes le) \<subseteq> set observed_emotions"
    using le set_classes_fit by simp
  then have "classes le ! k \<in> set observed_emotions" using kc by (meson nth_mem subsetD)
  with k run out show ?thesis by simp
qed

theorem predict_emotion_argmax_witness:
  "\<exists>st F. load_data_dl_loop dsp0 200 False [clip_angry, clip_calm] (init_state disk0 rng0) = Inr st
     \<and> y_acc st = [''angry'', ''calm'']
     \<and> extract_mfcc_sequence disk0 dsp0 clip_angry 40 200 = Inr F
     \<and> model0 [F] = [[1/4, 3/4]]
     \<and> length [1/4, 3/4 :: real] = length (classes (fit (y_acc st)))
     \<and> predict_emotion disk0 dsp0 clip_angry model0 (fit (y_acc st)) 200 = Inr ''calm''
     \<and> ''calm'' \<in> set observed_emotions"
proof -
  let ?s0 = "init_state disk0 rng0 :: real ndarray2 build_state"
  have long: "0 < py_int (real (length wave10) * 0.2)" unfolding bound10 by simp
  have longr: "0 < py_int (real (length (rev wave10)) * 0.2)" unfolding bound10r by simp
  have d0: "disk ?s0 clip_angry = Some (wave10, 22050)" by (simp add: init_state_def disk0_angry)
  from load_data_dl_step_readable[OF parse_angry emo_angry d0 dsp0_total long, of 200 False]
  obtain s1 where s1: "load_data_dl_step dsp0 200 False clip_angry ?s0 = Inr s1"
      "y_acc s1 = [''angry'']" "disk s1 = disk0"
    by (auto simp: init_state_def)
  have d1: "disk s1 clip_calm = Some (rev wave10, 22050)" using s1(3) disk0_calm by simp
  from load_data_dl_step_readable[OF parse_calm emo_calm d1 dsp0_total longr, of 200 False]
  obtain st where st: "load_data_dl_step dsp0 200 False clip_calm s1 = Inr st"
      "y_acc st = [''angry'', ''calm'']"
    using s1 by auto
  have build: "load_data_dl_loop dsp0 200 False [clip_angry, clip_calm] ?s0 = Inr st"
    using s1 st by simp
  obtain F where F: "extract_mfcc_sequence disk0 dsp0 clip_angry 40 200 = Inr F"
    using extract_mfcc_sequence_dsp0[of disk0 clip_angry, OF disk0_angry] by blast
  have out: "model0 [F] = [[1/4, 3/4]]" by (simp add: model0_def)
  have cl: "classes (fit (y_acc st)) = [''angry'', ''calm'']"
    using st(2) classes_fit_two by simp
  have width: "length [1/4, 3/4 :: real] = length (classes (fit (y_acc st)))" "[1/4, 3/4 :: real] \<noteq> []"
    using cl by simp_all
  from predict_emotion_argmax[where model = model0 and mfcc_seq = F and row = "[1/4, 3/4]",
      OF build refl F out width]
  obtain k where k: "np_argmax (model0 [F]) = Inr k"
      "predict_emotion disk0 dsp0 clip_angry model0 (fit (y_acc st)) 200 = Inr (classes (fit (y_acc st)) ! k)"
      "classes (fit (y_acc st)) ! k \<in> set observed_emotions"
    by blast
  have "np_argmax (model0 [F]) = Inr 1" unfolding out by (simp add: np_argmax_def)
  with k(1) have "k = 1" by simp
  with k cl have "predict_emotion disk0 dsp0 clip_angry model0 (fit (y_acc st)) 200 = Inr ''calm''"
     "''calm'' \<in> set observed_emotions" by simp_all
  with build st(2) F out width(1) show ?thesis by blast
qed

end
